theory Spec2Isabelle
  imports Complex_Main
begin

section \<open>Conventions of the embedding\<close>

text \<open>
  The forecasting core is Python over numpy and pandas. Python floats are idealised as
  \<^typ>\<open>real\<close>; where the code's behaviour depends on the IEEE special values (a \<open>NaN\<close>
  variance of a one-point series, a division by a zero spread) the case is written out as a
  branch of the model. A pandas \<open>Series\<close> is a list of (timestamp, value) rows, the
  timestamp a day number and a missing value \<open>None\<close>. Library estimators (scikit-learn,
  statsmodels, TensorFlow) are not part of the repository: what they return is an input of
  the model.
\<close>

text \<open>
  The exceptions the modelled code raises. Python's \<open>ValueError\<close> appears with three
  messages: a series that is too short (the message gives the number of observations), a
  forecaster that was not fitted, and a detection method that is not known.
\<close>

datatype error =
    ValueError_too_short nat
  | ValueError_not_fitted
  | ValueError_unknown_method string
  | TypeError
  | KeyError string
  | IndexError
  | LibraryError
  | ZeroDivisionError
  | ShapeError

type_synonym series = "(int \<times> real option) list"
type_synonym clean_series = "(int \<times> real) list"

fun dropna :: "series \<Rightarrow> clean_series" where
  "dropna [] = []"
| "dropna ((t, None) # rows) = dropna rows"
| "dropna ((t, Some v) # rows) = (t, v) # dropna rows"

definition mean :: "real list \<Rightarrow> real" where
  "mean xs = sum_list xs / real (length xs)"

definition sq_dev :: "real list \<Rightarrow> real" where
  "sq_dev xs = (\<Sum>x\<leftarrow>xs. (x - mean xs)\<^sup>2)"

text \<open>\<open>Series.var()\<close> of pandas: the sample variance (one degree of freedom removed) of
  the values present, \<open>NaN\<close> (here \<open>None\<close>) when fewer than two are present.\<close>

definition pd_var :: "real list \<Rightarrow> real option" where
  "pd_var xs = (if length xs < 2 then None else Some (sq_dev xs / (real (length xs) - 1)))"

definition to_series :: "clean_series \<Rightarrow> series" where
  "to_series rows = map (\<lambda>(t, v). (t, Some v)) rows"

text \<open>
  \<open>Series.quantile(q)\<close> of pandas, for a non-empty list and \<open>q\<close> between 0 and 1:
  linear interpolation between the two order statistics around position \<open>(n - 1) q\<close>.
\<close>

definition quantile :: "real list \<Rightarrow> real \<Rightarrow> real" where
  "quantile xs q =
     (let s = sort xs;
          h = (real (length xs) - 1) * q;
          lo = nat \<lfloor>h\<rfloor>;
          hi = min (lo + 1) (length xs - 1)
      in s ! lo + (h - real lo) * (s ! hi - s ! lo))"

text \<open>\<open>Series.clip(lower, upper)\<close> on one value.\<close>

definition clip :: "real \<Rightarrow> real \<Rightarrow> real \<Rightarrow> real" where
  "clip lower upper v = min (max v lower) upper"

section \<open>Decomposition: preparing the series\<close>

text \<open>
  \<open>_prepare_series\<close>: the rows with a missing value are dropped, fewer than 100 rows
  left raise \<open>ValueError\<close>, and the values are clipped to the band between their 1st and
  99th percentiles. The timestamps stay with their values.
\<close>

definition prepare_series :: "series \<Rightarrow> error + clean_series" where
  "prepare_series series =
     (let clean_series = dropna series in
      if length clean_series < 100 then Inl (ValueError_too_short (length clean_series))
      else
        let q99 = quantile (map snd clean_series) (99 / 100);
            q01 = quantile (map snd clean_series) (1 / 100)
        in Inr (map (\<lambda>(t, v). (t, clip q01 q99 v)) clean_series))"

section \<open>Decomposition: seasonal and trend strength\<close>





section \<open>Ensemble combination of the component models\<close>

text \<open>
  What a component model's \<open>predict\<close> returns on the new input: one number per sample
  (the tree models) or one row of horizon values per sample (the LSTM, after the inverse
  scaling). The estimators are library objects; their output is the model's input here.
\<close>

datatype predicted = Scalars "real list" | Rows "real list list"

type_synonym metrics = "string \<rightharpoonup> real"

record forecaster =
  model_performance :: "string \<rightharpoonup> (string \<rightharpoonup> metrics)"
  scalers :: "string set"
  tensorflow_available :: bool

text \<open>\<open>np.repeat(pred.reshape(-1, 1), 28, axis=1)\<close>: every sample's number, 28 times.\<close>

fun flat :: "predicted \<Rightarrow> real list" where
  "flat (Scalars p) = p"
| "flat (Rows m) = concat m"

definition tree_pred :: "predicted \<Rightarrow> real list list" where
  "tree_pred p = map (replicate 28) (flat p)"

fun lstm_pred :: "predicted \<Rightarrow> real list list" where
  "lstm_pred (Scalars p) = [p]"
| "lstm_pred (Rows m) = m"

text \<open>
  The weight of one contributing model, before normalisation:
  \<open>1 / (1 + perf.get('mae', 1))\<close> with \<open>perf = model_performance[target].get(name, {})\<close>
  when the target has a performance table, \<open>1.0\<close> when it has none. Dividing by zero
  raises for a Python float.
\<close>

definition recorded_mae :: "(string \<rightharpoonup> metrics) \<Rightarrow> string \<Rightarrow> real" where
  "recorded_mae table name =
     (case table name of
        None \<Rightarrow> 1
      | Some perf \<Rightarrow> (case perf ''mae'' of None \<Rightarrow> 1 | Some m \<Rightarrow> m))"

definition model_weight :: "forecaster \<Rightarrow> string \<Rightarrow> string \<Rightarrow> error + real" where
  "model_weight fc target_col model_name =
     (case model_performance fc target_col of
        Some table \<Rightarrow>
          if 1 + recorded_mae table model_name = 0 then Inl ZeroDivisionError
          else Inr (1 / (1 + recorded_mae table model_name))
      | None \<Rightarrow> Inr 1)"

text \<open>The same weight where the division is defined.\<close>

definition pre_weight :: "(string \<rightharpoonup> metrics) option \<Rightarrow> string \<Rightarrow> real" where
  "pre_weight tab n = (case tab of None \<Rightarrow> 1 | Some table \<Rightarrow> 1 / (1 + recorded_mae table n))"

text \<open>
  The loop of \<open>ensemble_predict\<close> over the dictionary of models, in insertion order: the
  two lists \<open>predictions\<close> and \<open>weights\<close> it builds. A model of another name is passed
  over, and so is an LSTM when TensorFlow is not available.
\<close>

fun collect ::
  "forecaster \<Rightarrow> string \<Rightarrow> (string \<times> predicted) list \<Rightarrow>
   error + (real list list list \<times> real list)" where
  "collect fc target_col [] = Inr ([], [])"
| "collect fc target_col ((model_name, model) # rest) =
     (if model_name = ''random_forest'' \<or> model_name = ''gradient_boosting'' then
        (case model_weight fc target_col model_name of
           Inl e \<Rightarrow> Inl e
         | Inr w \<Rightarrow>
             (case collect fc target_col rest of
                Inl e \<Rightarrow> Inl e
              | Inr (ps, ws) \<Rightarrow> Inr (tree_pred model # ps, w # ws)))
      else if model_name = ''lstm'' \<and> tensorflow_available fc then
        (if target_col @ ''_X'' \<notin> scalers fc then Inl (KeyError (target_col @ ''_X''))
         else if target_col @ ''_y'' \<notin> scalers fc then Inl (KeyError (target_col @ ''_y''))
         else
           (case model_weight fc target_col model_name of
              Inl e \<Rightarrow> Inl e
            | Inr w \<Rightarrow>
                (case collect fc target_col rest of
                   Inl e \<Rightarrow> Inl e
                 | Inr (ps, ws) \<Rightarrow> Inr (lstm_pred model # ps, w # ws))))
      else collect fc target_col rest)"

text \<open>\<open>weights / weights.sum()\<close>.\<close>

definition normalize :: "real list \<Rightarrow> real list" where
  "normalize ws = map (\<lambda>w. w / sum_list ws) ws"

text \<open>
  \<open>np.average(predictions, axis=0, weights=weights)\<close>: position by position, the weighted
  sum of the models' values over the sum of the weights. The arrays must have one shape,
  and numpy refuses weights that sum to zero.
\<close>

definition scale :: "real \<Rightarrow> real list list \<Rightarrow> real list list" where
  "scale w m = map (map (\<lambda>v. w * v)) m"

definition add_arrays :: "real list list \<Rightarrow> real list list \<Rightarrow> real list list" where
  "add_arrays a b = map2 (map2 (+)) a b"

fun weighted_sum :: "real list \<Rightarrow> real list list list \<Rightarrow> real list list" where
  "weighted_sum (w # ws) [p] = scale w p"
| "weighted_sum (w # ws) (p # ps) = add_arrays (scale w p) (weighted_sum ws ps)"
| "weighted_sum _ _ = []"

definition np_average :: "real list list list \<Rightarrow> real list \<Rightarrow> error + real list list" where
  "np_average ps ws =
     (if \<exists>p \<in> set ps. map length p \<noteq> map length (hd ps) then Inl ShapeError
      else if sum_list ws = 0 then Inl ZeroDivisionError
      else Inr (scale (1 / sum_list ws) (weighted_sum ws ps)))"

definition ensemble_predict ::
  "forecaster \<Rightarrow> (string \<times> predicted) list \<Rightarrow> string \<Rightarrow> error + real list list" where
  "ensemble_predict fc models target_col =
     (case collect fc target_col models of
        Inl e \<Rightarrow> Inl e
      | Inr (predictions, weights) \<Rightarrow>
          if predictions = [] then Inr []
          else np_average predictions (normalize weights))"

text \<open>The array \<open>weights\<close> of \<open>ensemble_predict\<close> after the normalisation.\<close>

definition ensemble_weights ::
  "forecaster \<Rightarrow> (string \<times> predicted) list \<Rightarrow> string \<Rightarrow> error + real list" where
  "ensemble_weights fc models target_col =
     (case collect fc target_col models of
        Inl e \<Rightarrow> Inl e
      | Inr (predictions, weights) \<Rightarrow> Inr (normalize weights))"

text \<open>The names of the models that contribute a prediction, in order.\<close>

definition contributing :: "forecaster \<Rightarrow> (string \<times> predicted) list \<Rightarrow> string list" where
  "contributing fc models =
     filter (\<lambda>n. n = ''random_forest'' \<or> n = ''gradient_boosting'' \<or>
                 (n = ''lstm'' \<and> tensorflow_available fc))
            (map fst models)"

text \<open>
  The caller, \<open>forecast\<close>, after the combination for one fuel type: an entry of the
  result dictionary when the prediction has a row, no entry otherwise (the fuel type is
  then absent from the result; nothing is raised or logged). Of the entry, the dates and
  the prices are kept here.
\<close>

record forecast_entry =
  dates :: "int list"
  prices :: "real list"

definition forecast_unit :: "int \<Rightarrow> nat \<Rightarrow> real list list \<Rightarrow> forecast_entry option" where
  "forecast_unit last_date forecast_horizon prediction =
     (if length prediction > 0
      then Some \<lparr>dates = map (\<lambda>k. last_date + 1 + int k) [0..<forecast_horizon],
                 prices = hd prediction\<rparr>
      else None)"

section \<open>Standard deviations and percentage changes\<close>

text \<open>
  A float that may be infinite or \<open>NaN\<close>, for the quotients pandas forms. The sign of an
  infinity is not kept: the code takes absolute values or a standard deviation of them.
\<close>

datatype fl = Num real | Infinity | NotANumber

text \<open>\<open>Series.std()\<close> of pandas: the square root of \<open>Series.var()\<close>.\<close>

definition pd_std :: "real list \<Rightarrow> real option" where
  "pd_std xs = map_option sqrt (pd_var xs)"

text \<open>\<open>np.std\<close>: the population standard deviation.\<close>

definition np_std :: "real list \<Rightarrow> real" where
  "np_std xs = sqrt (sq_dev xs / real (length xs))"

text \<open>
  \<open>Series.pct_change()\<close>: \<open>NaN\<close> in the first place, then each value over its
  predecessor, less one; a zero predecessor gives an infinity, or \<open>NaN\<close> for 0/0.
\<close>

definition change :: "real \<Rightarrow> real \<Rightarrow> fl" where
  "change a b =
     (if a = 0 then (if b = 0 then NotANumber else Infinity) else Num (b / a - 1))"

fun changes_from :: "real \<Rightarrow> real list \<Rightarrow> fl list" where
  "changes_from a [] = []"
| "changes_from a (b # rest) = change a b # changes_from b rest"

fun pct_change :: "real list \<Rightarrow> fl list" where
  "pct_change [] = []"
| "pct_change (a # rest) = NotANumber # changes_from a rest"



section \<open>ARIMA forecaster: forecast\<close>

text \<open>
  What \<open>self.model.forecast(steps, exog, alpha)\<close> of the fitted library model does: it
  raises, or returns the point forecasts alone, or a pair of them with their confidence
  bounds. The point forecasts are a plain array or a pandas series with row labels of its
  own (dates, or positions when the training index has no regular frequency); the bounds
  are an array of rows or a frame, given by its row labels and its entries in the columns
  \<open>lower_ci\<close> and \<open>upper_ci\<close> (\<open>NaN\<close> where it has none).
\<close>

datatype label = Day int | Position nat


datatype library_bounds =
    BoundsArray "(real \<times> real) list"
  | BoundsFrame "(label \<times> real option \<times> real option) list"





text \<open>\<open>pd.DataFrame(conf_int, index=forecast_dates, columns=['lower_ci', 'upper_ci'])\<close>,
  in the same way.\<close>

definition place_bounds ::
  "int list \<Rightarrow> library_bounds \<Rightarrow> error + (int \<times> real option \<times> real option) list" where
  "place_bounds fdates conf_int =
     (case conf_int of
        BoundsArray ci \<Rightarrow>
          if length ci \<noteq> length fdates then Inl ShapeError
          else Inr (map2 (\<lambda>d (l, u). (d, Some l, Some u)) fdates ci)
      | BoundsFrame rows \<Rightarrow>
          if \<not> distinct (map fst rows) then Inl ShapeError
          else Inr (map (\<lambda>d. (case map_of rows (Day d) of
                                  Some (l, u) \<Rightarrow> (d, l, u)
                                | None \<Rightarrow> (d, None, None))) fdates))"



section \<open>Seven-day forecast for Seoul\<close>












section \<open>Decomposition: level shifts by cumulative sums\<close>

text \<open>
  The state of the loop of \<open>_cusum_detection\<close>: the two accumulators at the previous
  index and the list \<open>breaks\<close> of (date, significance) pairs found so far.
\<close>

record cusum_state =
  cusum_pos :: real
  cusum_neg :: real
  found :: "(int \<times> real) list"

text \<open>
  One pass of the loop body at index \<open>i\<close>, on the row \<open>(date, v)\<close>, with the mean
  \<open>mean_val\<close> and the standard deviation \<open>sd\<close> of all values: the threshold is
  \<open>h = 4 * sd\<close>. The gap test reads \<open>breaks[-1][1]\<close>, the second component of the last
  pair, which is its significance.
\<close>

definition cusum_step ::
  "real \<Rightarrow> real \<Rightarrow> int \<Rightarrow> nat \<Rightarrow> int \<times> real \<Rightarrow> cusum_state \<Rightarrow> cusum_state" where
  "cusum_step mean_val sd min_segment_length i row st =
     (let h = 4 * sd;
          v = snd row;
          pos = max 0 (cusum_pos st + v - mean_val - 5 / 10 * sd);
          neg = max 0 (cusum_neg st - v + mean_val - 5 / 10 * sd)
      in if (pos > h \<or> neg > h) \<and>
            int i \<ge> min_segment_length \<and>
            (found st = [] \<or> real i - snd (last (found st)) \<ge> of_int min_segment_length)
         then \<lparr>cusum_pos = 0, cusum_neg = 0,
               found = found st @ [(fst row, max pos neg / h)]\<rparr>
         else \<lparr>cusum_pos = pos, cusum_neg = neg, found = found st\<rparr>)"

fun cusum_loop ::
  "real \<Rightarrow> real \<Rightarrow> int \<Rightarrow> nat \<Rightarrow> clean_series \<Rightarrow> cusum_state \<Rightarrow> cusum_state" where
  "cusum_loop mean_val sd min_segment_length i [] st = st"
| "cusum_loop mean_val sd min_segment_length i (row # rest) st =
     cusum_loop mean_val sd min_segment_length (Suc i) rest
       (cusum_step mean_val sd min_segment_length i row st)"

text \<open>\<open>_cusum_detection\<close>: the loop runs over the indices from 1 on.\<close>

definition cusum_detection :: "clean_series \<Rightarrow> int \<Rightarrow> (int \<times> real) list" where
  "cusum_detection series min_segment_length =
     (let values = map snd series
      in found (cusum_loop (mean values) (np_std values) min_segment_length 1 (tl series)
                  \<lparr>cusum_pos = 0, cusum_neg = 0, found = []\<rparr>))"

text \<open>
  A series for the detector: a hundred days at 1500 with the price 1600 on days 30 and 32.
\<close>

definition two_spikes :: clean_series where
  "two_spikes = map (\<lambda>k. (int k, if k = 30 \<or> k = 32 then 1600 else 1500)) [0..<100]"

section \<open>Outlier detection\<close>

record outlier_result =
  outlier_indices :: "nat list"
  outlier_scores :: "fl list"
  outlier_types :: "string list"
  outlier_dates :: "int list"
  outlier_values :: "real list"
  total_outliers :: nat
  outlier_percentage :: real
  detection_method :: string
  threshold :: real

definition empty_result :: "string \<Rightarrow> real \<Rightarrow> outlier_result" where
  "empty_result method thr =
     \<lparr>outlier_indices = [], outlier_scores = [], outlier_types = [], outlier_dates = [],
      outlier_values = [], total_outliers = 0, outlier_percentage = 0,
      detection_method = method, threshold = thr\<rparr>"

text \<open>
  The result each detector builds from the positions it flags. The percentage divides by
  the length of the series: for an empty series that raises, and the detector's handler
  returns the empty result.
\<close>

definition make_result ::
  "clean_series \<Rightarrow> nat list \<Rightarrow> fl list \<Rightarrow> string list \<Rightarrow> string \<Rightarrow> real \<Rightarrow> outlier_result"
  where
  "make_result series idxs scores types method thr =
     (if series = [] then empty_result method thr
      else \<lparr>outlier_indices = idxs, outlier_scores = scores, outlier_types = types,
            outlier_dates = map (\<lambda>i. fst (series ! i)) idxs,
            outlier_values = map (\<lambda>i. snd (series ! i)) idxs,
            total_outliers = length idxs,
            outlier_percentage = real (length idxs) / real (length series) * 100,
            detection_method = method, threshold = thr\<rparr>)"

subsection \<open>Isolation forest\<close>

text \<open>
  The forest is scikit-learn's. Its answer is an input: for every observation the label
  (\<open>True\<close> for the label -1, an outlier) and the sample score, or \<open>None\<close> when
  the library raises, which the handler turns into the empty result.
\<close>

definition isolation_forest_detection ::
  "clean_series \<Rightarrow> real \<Rightarrow> (bool \<times> real) list option \<Rightarrow> outlier_result" where
  "isolation_forest_detection series contamination fitted =
     (case fitted of
        None \<Rightarrow> empty_result ''isolation_forest'' contamination
      | Some rows \<Rightarrow>
          let idxs = filter (\<lambda>i. i < length rows \<and> fst (rows ! i)) [0..<length series]
          in make_result series idxs (map (\<lambda>i. Num (snd (rows ! i))) idxs)
               (map (\<lambda>i. ''isolation_forest'') idxs) ''isolation_forest'' contamination)"

text \<open>
  The answer of the forest as a function of the contamination, after scikit-learn's
  documentation and source: the contamination must lie in the interval (0, 0.5], or the
  estimator raises; the sample scores of the fitted forest (\<open>None\<close>: the fit raises on
  the features) do not depend on the contamination; the offset is the percentile
  \<open>100 * contamination\<close> of the scores, and an observation is labelled -1 when its score
  is below the offset.
\<close>

definition forest_fit :: "real list option \<Rightarrow> real \<Rightarrow> (bool \<times> real) list option" where
  "forest_fit sample_scores contamination =
     (case sample_scores of
        None \<Rightarrow> None
      | Some scores \<Rightarrow>
          if 0 < contamination \<and> contamination \<le> 1 / 2
          then Some (map (\<lambda>sc. (sc < quantile scores contamination, sc)) scores)
          else None)"

subsection \<open>Statistical method\<close>

text \<open>\<open>np.median\<close> of a non-empty list.\<close>

definition median :: "real list \<Rightarrow> real" where
  "median xs =
     (let s = sort xs; n = length xs
      in if even n then (s ! (n div 2 - 1) + s ! (n div 2)) / 2 else s ! (n div 2))"

text \<open>
  The three tests of \<open>_statistical_detection\<close> on one value \<open>x\<close> of the values \<open>xs\<close>.
  \<open>stats.zscore\<close> divides by the population standard deviation: when that is zero every
  score is \<open>NaN\<close> and no comparison holds. The modified score divides by the median
  absolute deviation: when that is zero the score is infinite for a value off the median
  and \<open>NaN\<close> for a value on it.
\<close>

definition z_score :: "real list \<Rightarrow> real \<Rightarrow> fl" where
  "z_score xs x =
     (if np_std xs = 0 then NotANumber else Num (\<bar>(x - mean xs) / np_std xs\<bar>))"

definition modified_z_exceeds :: "real list \<Rightarrow> real \<Rightarrow> bool" where
  "modified_z_exceeds xs x =
     (let med = median xs; mad = median (map (\<lambda>v. \<bar>v - med\<bar>) xs)
      in if mad = 0 then x \<noteq> med
         else \<bar>6745 / 10000 * (x - med) / mad\<bar> > 35 / 10)"

definition outside_iqr :: "real list \<Rightarrow> real \<Rightarrow> bool" where
  "outside_iqr xs x =
     (let q1 = quantile xs (25 / 100); q3 = quantile xs (75 / 100); iqr = q3 - q1
      in x < q1 - 15 / 10 * iqr \<or> x > q3 + 15 / 10 * iqr)"

fun exceeds :: "fl \<Rightarrow> real \<Rightarrow> bool" where
  "exceeds (Num r) t = (r > t)"
| "exceeds Infinity t = True"
| "exceeds NotANumber t = False"

definition outlier_mask :: "real list \<Rightarrow> real \<Rightarrow> real \<Rightarrow> bool" where
  "outlier_mask xs z_threshold x =
     (exceeds (z_score xs x) z_threshold \<or> modified_z_exceeds xs x \<or> outside_iqr xs x)"

definition statistical_detection :: "clean_series \<Rightarrow> real \<Rightarrow> outlier_result" where
  "statistical_detection series z_threshold =
     (let xs = map snd series;
          idxs = filter (\<lambda>i. outlier_mask xs z_threshold (xs ! i)) [0..<length xs]
      in make_result series idxs (map (\<lambda>i. z_score xs (xs ! i)) idxs)
           (map (\<lambda>i. ''statistical'') idxs) ''statistical'' z_threshold)"

subsection \<open>Domain rules\<close>

fun fl_abs :: "fl \<Rightarrow> fl" where
  "fl_abs (Num r) = Num \<bar>r\<bar>"
| "fl_abs f = f"

text \<open>\<open>series.rolling(window=7).std()\<close> at position \<open>i\<close>: \<open>NaN\<close> before the window is
  full.\<close>

definition rolling_std :: "real list \<Rightarrow> nat \<Rightarrow> real option" where
  "rolling_std xs i = (if i < 6 then None else pd_std (take 7 (drop (i - 6) xs)))"

text \<open>
  \<open>_detect_consecutive_changes\<close> on the absolute changes, \<open>count\<close> being the length of
  the current run of changes above 20 per cent. A run of three or more that ends makes
  the code add \<open>idxmax()\<close>, the timestamp of the largest change, to the integer
  \<open>start_idx\<close>, which raises \<open>TypeError\<close>; without such a run the list returned is empty.
\<close>

fun detect_consecutive_changes :: "nat \<Rightarrow> fl list \<Rightarrow> error + (nat \<times> fl) list" where
  "detect_consecutive_changes count [] = Inr []"
| "detect_consecutive_changes count (NotANumber # rest) = detect_consecutive_changes count rest"
| "detect_consecutive_changes count (c # rest) =
     (if exceeds c (20 / 100) then detect_consecutive_changes (count + 1) rest
      else if count \<ge> 3 then Inl TypeError
      else detect_consecutive_changes 0 rest)"

text \<open>
  \<open>_domain_based_detection\<close>: the days that move by more than 10 per cent, then the days
  whose 7-day standard deviation is above 15 per cent of the standard deviation of the
  series and that are not in the list yet, then the consecutive changes. An exception
  anywhere gives the empty result.
\<close>

definition domain_based_detection :: "clean_series \<Rightarrow> outlier_result" where
  "domain_based_detection series =
     (let xs = map snd series;
          daily_changes = map fl_abs (pct_change xs);
          daily = filter (\<lambda>i. exceeds (daily_changes ! i) (10 / 100)) [0..<length xs];
          weekly =
            filter (\<lambda>i. (case (rolling_std xs i, pd_std xs) of
                            (Some w, Some sd) \<Rightarrow> w > 15 / 100 * sd
                          | _ \<Rightarrow> False) \<and> i \<notin> set daily)
                   [0..<length xs]
      in case detect_consecutive_changes 0 daily_changes of
           Inl e \<Rightarrow> empty_result ''domain_based'' (1 / 10)
         | Inr consecutive \<Rightarrow>
             let extra = filter (\<lambda>(pos, score). pos \<notin> set (daily @ weekly)) consecutive
             in make_result series
                  (daily @ weekly @ map fst extra)
                  (map (\<lambda>i. daily_changes ! i) daily @
                   map (\<lambda>i. Num (the (rolling_std xs i))) weekly @ map snd extra)
                  (map (\<lambda>i. ''daily_spike'') daily @ map (\<lambda>i. ''volatility_spike'') weekly @
                   map (\<lambda>e. ''supply_disruption'') extra)
                  ''domain_based'' (10 / 100))"

subsection \<open>Ensemble of the three methods\<close>

text \<open>The sum of two scores; the infinite scores are positive.\<close>

fun fl_add :: "fl \<Rightarrow> fl \<Rightarrow> fl" where
  "fl_add (Num a) (Num b) = Num (a + b)"
| "fl_add NotANumber _ = NotANumber"
| "fl_add _ NotANumber = NotANumber"
| "fl_add _ _ = Infinity"

fun fl_div :: "fl \<Rightarrow> nat \<Rightarrow> fl" where
  "fl_div (Num a) n = Num (a / real n)"
| "fl_div f n = f"

text \<open>
  The dictionaries of the vote: \<open>all_indices\<close> (kept as a list without repetition),
  \<open>vote_counts\<close>, \<open>score_sums\<close> and \<open>type_info\<close>, and the update the loop makes for
  one flagged index of one method.
\<close>

record tally =
  all_indices :: "nat list"
  vote_counts :: "nat \<rightharpoonup> nat"
  score_sums :: "nat \<rightharpoonup> fl"
  type_info :: "nat \<rightharpoonup> string list"

definition cast_vote :: "string \<Rightarrow> nat \<times> fl \<times> string \<Rightarrow> tally \<Rightarrow> tally" where
  "cast_vote method entry t =
     (case entry of (idx, score, type) \<Rightarrow>
        \<lparr>all_indices = List.insert idx (all_indices t),
         vote_counts = (vote_counts t)
           (idx \<mapsto> (case vote_counts t idx of None \<Rightarrow> 0 | Some c \<Rightarrow> c) + 1),
         score_sums = (score_sums t)
           (idx \<mapsto> fl_add (case score_sums t idx of None \<Rightarrow> Num 0 | Some sc \<Rightarrow> sc) score),
         type_info = (type_info t)
           (idx \<mapsto> (case type_info t idx of None \<Rightarrow> [] | Some tags \<Rightarrow> tags)
                    @ [method @ '':'' @ type])\<rparr>)"

definition count_result :: "string \<Rightarrow> outlier_result \<Rightarrow> tally \<Rightarrow> tally" where
  "count_result method result t =
     fold (cast_vote method)
       (zip (outlier_indices result) (zip (outlier_scores result) (outlier_types result))) t"

text \<open>\<open>','.join(tags)\<close>.\<close>

fun join_comma :: "string list \<Rightarrow> string" where
  "join_comma [] = []"
| "join_comma [tag] = tag"
| "join_comma (tag # rest) = tag @ '','' @ join_comma rest"

text \<open>
  \<open>_ensemble_detection\<close> from the results of the three methods. The order in which Python
  goes through the set \<open>all_indices\<close> is not fixed by the language; the lists of the result
  are given here by ascending index. A flagged position outside the series would raise
  and give the empty result.
\<close>

definition combine_votes ::
  "clean_series \<Rightarrow> real \<Rightarrow> int \<Rightarrow> outlier_result \<Rightarrow> outlier_result \<Rightarrow> outlier_result \<Rightarrow>
   outlier_result" where
  "combine_votes series contamination min_votes iso_result stat_result domain_result =
     (let t = count_result ''domain'' domain_result
                (count_result ''stat'' stat_result
                  (count_result ''iso'' iso_result
                    \<lparr>all_indices = [], vote_counts = Map.empty, score_sums = Map.empty,
                     type_info = Map.empty\<rparr>));
          final_outliers =
            filter (\<lambda>idx. int (the (vote_counts t idx)) \<ge> min_votes) (sort (all_indices t))
      in if series = [] \<or> (\<exists>i \<in> set final_outliers. i \<ge> length series)
         then empty_result ''ensemble'' contamination
         else \<lparr>outlier_indices = final_outliers,
               outlier_scores =
                 map (\<lambda>idx. fl_div (the (score_sums t idx)) (the (vote_counts t idx)))
                     final_outliers,
               outlier_types = map (\<lambda>idx. join_comma (the (type_info t idx))) final_outliers,
               outlier_dates = map (\<lambda>i. fst (series ! i)) final_outliers,
               outlier_values = map (\<lambda>i. snd (series ! i)) final_outliers,
               total_outliers = length final_outliers,
               outlier_percentage =
                 real (length final_outliers) / real (length series) * 100,
               detection_method = ''ensemble'', threshold = of_int min_votes\<rparr>)"

definition ensemble_detection ::
  "clean_series \<Rightarrow> real \<Rightarrow> int \<Rightarrow> (bool \<times> real) list option \<Rightarrow> outlier_result" where
  "ensemble_detection series contamination min_votes fitted =
     combine_votes series contamination min_votes
       (isolation_forest_detection series contamination fitted)
       (statistical_detection series 3)
       (domain_based_detection series)"

text \<open>
  \<open>detect_outliers\<close>, with the keyword arguments \<open>z_threshold\<close> (default 3.0) and
  \<open>min_votes\<close> (default 2): fewer than 30 observations give the empty result.
\<close>

definition detect_outliers ::
  "series \<Rightarrow> string \<Rightarrow> real \<Rightarrow> real option \<Rightarrow> int option \<Rightarrow> (bool \<times> real) list option \<Rightarrow>
   error + outlier_result" where
  "detect_outliers series method contamination z_threshold min_votes fitted =
     (let clean_series = dropna series
      in if length clean_series < 30 then Inr (empty_result method 0)
         else if method = ''isolation_forest''
           then Inr (isolation_forest_detection clean_series contamination fitted)
         else if method = ''statistical''
           then Inr (statistical_detection clean_series
                      (case z_threshold of None \<Rightarrow> 3 | Some z \<Rightarrow> z))
         else if method = ''domain_based'' then Inr (domain_based_detection clean_series)
         else if method = ''ensemble''
           then Inr (ensemble_detection clean_series contamination
                      (case min_votes of None \<Rightarrow> 2 | Some v \<Rightarrow> v) fitted)
         else Inl (ValueError_unknown_method method))"








text \<open>
  A series for the statistical method: 41 days that alternate between 1497 and 1503, with
  the price 1511 on day 20.
\<close>

definition one_high :: clean_series where
  "one_high = map (\<lambda>k. (int k, if k = 20 then 1511 else if even k then 1497 else 1503)) [0..<41]"

text \<open>
  Sample scores of a forest for the series \<open>one_high\<close>: -0.7 on day 20, -0.5 on
  the first ten days and -0.4 on the other days.
\<close>

definition one_high_scores :: "real list" where
  "one_high_scores =
     map (\<lambda>k. if k = 20 then - (7 / 10) else if k < 10 then - (5 / 10) else - (4 / 10)) [0..<41]"

section \<open>Properties: seasonal and trend strength\<close>







section \<open>Properties: ensemble weights\<close>

lemma model_weight_some:
  "model_performance fc t = Some table \<Longrightarrow> 0 \<le> recorded_mae table n \<Longrightarrow>
   model_weight fc t n = Inr (1 / (1 + recorded_mae table n))"
  by (simp add: model_weight_def)

lemma model_weight_none:
  "model_performance fc t = None \<Longrightarrow> model_weight fc t n = Inr 1"
  by (simp add: model_weight_def)

lemma model_weight_pre:
  "(\<forall>table. model_performance fc t = Some table \<longrightarrow> 0 \<le> recorded_mae table n) \<Longrightarrow>
   model_weight fc t n = Inr (pre_weight (model_performance fc t) n)"
  by (cases "model_performance fc t") (simp_all add: model_weight_def pre_weight_def)

lemma collect_returns:
  assumes "''lstm'' \<in> set (contributing fc models) \<longrightarrow>
             t @ ''_X'' \<in> scalers fc \<and> t @ ''_y'' \<in> scalers fc"
    and "\<forall>table. model_performance fc t = Some table \<longrightarrow>
           (\<forall>n \<in> set (contributing fc models). 0 \<le> recorded_mae table n)"
  shows "\<exists>ps. collect fc t models =
           Inr (ps, map (pre_weight (model_performance fc t)) (contributing fc models)) \<and>
           length ps = length (contributing fc models)"
  using assms
proof (induction models)
  case Nil
  then show ?case by (simp add: contributing_def)
next
  case (Cons a models)
  obtain name model where a: "a = (name, model)" by (cases a)
  have sub: "set (contributing fc models) \<subseteq> set (contributing fc (a # models))"
    by (auto simp: contributing_def)
  from Cons.IH sub Cons.prems obtain ps where
    ih: "collect fc t models =
           Inr (ps, map (pre_weight (model_performance fc t)) (contributing fc models))"
       "length ps = length (contributing fc models)"
    by blast
  let ?P = "name = ''random_forest'' \<or> name = ''gradient_boosting'' \<or>
                (name = ''lstm'' \<and> tensorflow_available fc)"
  show ?case
  proof (cases ?P)
    case False
    then have "contributing fc (a # models) = contributing fc models"
      by (simp add: contributing_def a)
    moreover from False have "collect fc t (a # models) = collect fc t models"
      by (auto simp: a)
    ultimately show ?thesis using ih by simp
  next
    case True
    then have cs: "contributing fc (a # models) = name # contributing fc models"
      by (simp add: contributing_def a)
    have w: "model_weight fc t name = Inr (pre_weight (model_performance fc t) name)"
      using Cons.prems(2) cs by (intro model_weight_pre) simp
    have k: "name = ''lstm'' \<Longrightarrow> t @ ''_X'' \<in> scalers fc \<and> t @ ''_y'' \<in> scalers fc"
      using Cons.prems(1) cs by simp
    have "collect fc t (a # models) =
            Inr ((if name = ''lstm'' then lstm_pred model else tree_pred model) # ps,
                 pre_weight (model_performance fc t) name #
                 map (pre_weight (model_performance fc t)) (contributing fc models))"
      using True ih(1) w k by (auto simp: a)
    then show ?thesis using cs ih(2) by simp
  qed
qed

lemma normalize_sum: "sum_list ws \<noteq> 0 \<Longrightarrow> sum_list (normalize ws) = 1"
proof -
  assume a: "sum_list ws \<noteq> 0"
  have "sum_list (map (\<lambda>w. w / c) ws) = sum_list ws / c" for c
    by (induction ws) (simp_all add: add_divide_distrib)
  then have "sum_list (map (\<lambda>w. w / sum_list ws) ws) = sum_list ws / sum_list ws" .
  then show ?thesis using a by (simp add: normalize_def)
qed

lemma pre_weight_pos:
  "(\<forall>table. tab = Some table \<longrightarrow> 0 \<le> recorded_mae table n) \<Longrightarrow> 0 < pre_weight tab n"
  by (cases tab) (simp_all add: pre_weight_def)

lemma sum_list_pos_all: "ws \<noteq> [] \<Longrightarrow> \<forall>w \<in> set ws. 0 < w \<Longrightarrow> 0 < sum_list (ws::real list)"
  by (induction ws) (auto intro: add_pos_nonneg sum_list_nonneg less_imp_le)

lemma nth_le_sum_list:
  "i < length ws \<Longrightarrow> \<forall>w \<in> set ws. 0 \<le> w \<Longrightarrow> ws ! i \<le> sum_list (ws::real list)"
proof (induction ws arbitrary: i)
  case Nil
  then show ?case by simp
next
  case (Cons a ws)
  show ?case
  proof (cases i)
    case 0
    have "0 \<le> sum_list ws" using Cons.prems(2) by (intro sum_list_nonneg) simp
    then show ?thesis using 0 by simp
  next
    case (Suc j)
    then have "ws ! j \<le> sum_list ws" using Cons by simp
    moreover have "0 \<le> a" using Cons.prems(2) by simp
    ultimately show ?thesis using Suc by simp
  qed
qed

lemma sum_list_update_real:
  "i < length ws \<Longrightarrow> sum_list (ws[i := w']) = sum_list ws + w' - (ws ! i :: real)"
proof (induction ws arbitrary: i)
  case Nil
  then show ?case by simp
next
  case (Cons a ws)
  then show ?case by (cases i) simp_all
qed

lemma normalize_update_le:
  assumes i: "i < length ws" and pos: "\<forall>w \<in> set ws. 0 < w"
    and w': "0 < w'" "w' \<le> ws ! i"
  shows "normalize (ws[i := w']) ! i \<le> normalize ws ! i"
proof -
  let ?S = "sum_list ws" and ?a = "ws ! i"
  have a_pos: "0 < ?a" using i pos by simp
  have a_le: "?a \<le> ?S" using i pos by (intro nth_le_sum_list) (auto intro: less_imp_le)
  have S': "sum_list (ws[i := w']) = ?S + w' - ?a"
    using i by (rule sum_list_update_real)
  have S_pos: "0 < ?S" using a_pos a_le by linarith
  have S'_pos: "0 < ?S + w' - ?a" using a_le w' by linarith
  have "w' * ?S \<le> ?a * (?S + w' - ?a)"
  proof -
    have "(?a - w') * (?S - ?a) \<ge> 0" using a_le w' by simp
    then show ?thesis by (simp add: algebra_simps)
  qed
  then have "w' / (?S + w' - ?a) \<le> ?a / ?S"
    using S_pos S'_pos by (simp add: field_simps)
  then show ?thesis using i S' by (simp add: normalize_def)
qed

lemma pre_weight_cases:
  "pre_weight tab n =
     (case tab of
        None \<Rightarrow> 1
      | Some table \<Rightarrow>
          (case table n of
             None \<Rightarrow> 1 / 2
           | Some perf \<Rightarrow> (case perf ''mae'' of None \<Rightarrow> 1 / 2 | Some m \<Rightarrow> 1 / (1 + m))))"
  by (simp add: pre_weight_def recorded_mae_def split: option.splits)

lemma ensemble_weights_returns:
  assumes "''lstm'' \<in> set (contributing fc models) \<longrightarrow>
             t @ ''_X'' \<in> scalers fc \<and> t @ ''_y'' \<in> scalers fc"
    and "\<forall>table. model_performance fc t = Some table \<longrightarrow>
           (\<forall>n \<in> set (contributing fc models). 0 \<le> recorded_mae table n)"
  shows "ensemble_weights fc models t =
           Inr (normalize (map (pre_weight (model_performance fc t)) (contributing fc models)))"
  using collect_returns[OF assms] by (auto simp: ensemble_weights_def)

lemma recorded_mae_update:
  "recorded_mae (table(m \<mapsto> perf(''mae'' \<mapsto> e'))) n =
     (if n = m then e' else recorded_mae table n)"
  by (simp add: recorded_mae_def)

lemma ensemble_weight_antimono:
  assumes scal: "''lstm'' \<in> set (contributing fc models) \<longrightarrow>
             t @ ''_X'' \<in> scalers fc \<and> t @ ''_y'' \<in> scalers fc"
    and nonneg: "\<forall>n \<in> set (contributing fc models). 0 \<le> recorded_mae table n"
    and tab: "model_performance fc t = Some table"
    and m: "table m = Some perf" "perf ''mae'' = Some e" "e \<le> e'"
    and d: "distinct (map fst models)"
    and i: "i < length (contributing fc models)" "contributing fc models ! i = m"
  shows "\<exists>ws ws'. ensemble_weights fc models t = Inr ws \<and>
           ensemble_weights
             (fc\<lparr>model_performance := (model_performance fc)(t \<mapsto> table(m \<mapsto> perf(''mae'' \<mapsto> e')))\<rparr>)
             models t = Inr ws' \<and>
           ws' ! i \<le> ws ! i"
proof -
  let ?names = "contributing fc models"
  let ?table' = "table(m \<mapsto> perf(''mae'' \<mapsto> e'))"
  let ?fc' = "fc\<lparr>model_performance := (model_performance fc)(t \<mapsto> ?table')\<rparr>"
  let ?raw = "map (pre_weight (Some table)) ?names"
  let ?raw' = "map (pre_weight (Some ?table')) ?names"
  have names': "contributing ?fc' models = ?names" by (simp add: contributing_def)
  have e: "recorded_mae table m = e" using m by (simp add: recorded_mae_def)
  have m_in: "m \<in> set ?names" using i by (metis nth_mem)
  then have e0: "0 \<le> e" using nonneg e by auto
  have nonneg': "\<forall>n \<in> set ?names. 0 \<le> recorded_mae ?table' n"
    using nonneg e0 m(3) by (simp add: recorded_mae_update)
  have w: "ensemble_weights fc models t = Inr (normalize ?raw)"
    using ensemble_weights_returns[OF scal] nonneg tab by simp
  have w': "ensemble_weights ?fc' models t = Inr (normalize ?raw')"
    using ensemble_weights_returns[of ?fc' models t] scal nonneg' names' by simp
  have dn: "distinct ?names" using d by (simp add: contributing_def)
  have upd: "?raw' = ?raw[i := 1 / (1 + e')]"
  proof (rule nth_equalityI)
    show "length ?raw' = length (?raw[i := 1 / (1 + e')])" by simp
  next
    fix j assume "j < length ?raw'"
    then have j: "j < length ?names" by simp
    show "?raw' ! j = ?raw[i := 1 / (1 + e')] ! j"
    proof (cases "j = i")
      case True
      then show ?thesis using i by (simp add: pre_weight_def recorded_mae_update)
    next
      case False
      then have "?names ! j \<noteq> m" using dn i j by (auto simp: distinct_conv_nth)
      then show ?thesis using False j by (simp add: pre_weight_def recorded_mae_update)
    qed
  qed
  have pos: "\<forall>w \<in> set ?raw. 0 < w"
    using nonneg by (auto simp: pre_weight_def intro!: divide_pos_pos add_pos_nonneg)
  have "normalize (?raw[i := 1 / (1 + e')]) ! i \<le> normalize ?raw ! i"
  proof (rule normalize_update_le)
    show "i < length ?raw" using i by simp
    show "\<forall>w \<in> set ?raw. 0 < w" by (rule pos)
    show "0 < 1 / (1 + e')" using e0 m(3) by simp
    show "1 / (1 + e') \<le> ?raw ! i" using i e e0 m(3) by (simp add: pre_weight_def frac_le)
  qed
  then show ?thesis using w w' upd by simp
qed

text \<open>
  Claim C1 (as amended). For a non-empty set of contributing models whose recorded MAE
  values are not negative, the weight of a model before normalisation is 1/(1+MAE); it is
  1/2 for a model with no record, or no MAE, under a target that has a performance table,
  and 1 for every model when the target has no table at all. The normalised weights are
  the quotients by their sum, each is at least 0, they sum to 1, and raising the MAE of one
  model does not raise its weight.
\<close>

theorem ensemble_weights_normalized:
  assumes scalers_ok: "''lstm'' \<in> set (contributing fc models) \<longrightarrow>
             target @ ''_X'' \<in> scalers fc \<and> target @ ''_y'' \<in> scalers fc"
    and mae_nonneg: "\<forall>table. model_performance fc target = Some table \<longrightarrow>
           (\<forall>n \<in> set (contributing fc models). 0 \<le> recorded_mae table n)"
    and nonempty: "contributing fc models \<noteq> []"
  shows "\<exists>ps raw ws.
      collect fc target models = Inr (ps, raw) \<and>
      ensemble_weights fc models target = Inr ws \<and>
      length raw = length (contributing fc models) \<and> length ws = length raw \<and>
      (\<forall>i < length raw.
         raw ! i =
           (case model_performance fc target of
              None \<Rightarrow> 1
            | Some table \<Rightarrow>
                (case table (contributing fc models ! i) of
                   None \<Rightarrow> 1 / 2
                 | Some perf \<Rightarrow>
                     (case perf ''mae'' of None \<Rightarrow> 1 / 2 | Some m \<Rightarrow> 1 / (1 + m)))) \<and>
         ws ! i = raw ! i / sum_list raw \<and> 0 \<le> ws ! i) \<and>
      sum_list ws = 1 \<and>
      (\<forall>i table perf e e'.
         i < length raw \<and> distinct (map fst models) \<and>
         model_performance fc target = Some table \<and>
         table (contributing fc models ! i) = Some perf \<and> perf ''mae'' = Some e \<and> e \<le> e' \<longrightarrow>
         (\<exists>ws'. ensemble_weights
                  (fc\<lparr>model_performance := (model_performance fc)
                        (target \<mapsto> table(contributing fc models ! i \<mapsto> perf(''mae'' \<mapsto> e')))\<rparr>)
                  models target = Inr ws' \<and>
                ws' ! i \<le> ws ! i))"
proof -
  let ?names = "contributing fc models"
  let ?raw = "map (pre_weight (model_performance fc target)) ?names"
  from collect_returns[OF scalers_ok mae_nonneg] obtain ps where
    ps: "collect fc target models = Inr (ps, ?raw)" by blast
  have ws: "ensemble_weights fc models target = Inr (normalize ?raw)"
    by (rule ensemble_weights_returns[OF scalers_ok mae_nonneg])
  have pos: "\<forall>w \<in> set ?raw. 0 < w"
    using mae_nonneg by (auto intro!: pre_weight_pos)
  have raw_ne: "?raw \<noteq> []" using nonempty by simp
  have S: "0 < sum_list ?raw" by (rule sum_list_pos_all[OF raw_ne pos])
  have one: "sum_list (normalize ?raw) = 1" using S by (intro normalize_sum) simp
  have each: "\<forall>i < length ?raw.
         ?raw ! i =
           (case model_performance fc target of
              None \<Rightarrow> 1
            | Some table \<Rightarrow>
                (case table (?names ! i) of
                   None \<Rightarrow> 1 / 2
                 | Some perf \<Rightarrow>
                     (case perf ''mae'' of None \<Rightarrow> 1 / 2 | Some m \<Rightarrow> 1 / (1 + m)))) \<and>
         normalize ?raw ! i = ?raw ! i / sum_list ?raw \<and> 0 \<le> normalize ?raw ! i"
  proof (intro allI impI conjI)
    fix i assume i: "i < length ?raw"
    show "?raw ! i =
           (case model_performance fc target of
              None \<Rightarrow> 1
            | Some table \<Rightarrow>
                (case table (?names ! i) of
                   None \<Rightarrow> 1 / 2
                 | Some perf \<Rightarrow>
                     (case perf ''mae'' of None \<Rightarrow> 1 / 2 | Some m \<Rightarrow> 1 / (1 + m))))"
      using i by (simp add: pre_weight_cases)
    show "normalize ?raw ! i = ?raw ! i / sum_list ?raw"
      using i by (simp add: normalize_def)
    have "0 < ?raw ! i" using pos i by (metis nth_mem)
    then show "0 \<le> normalize ?raw ! i"
      using i S by (simp add: normalize_def)
  qed
  have mono: "\<forall>i table perf e e'.
         i < length ?raw \<and> distinct (map fst models) \<and>
         model_performance fc target = Some table \<and>
         table (?names ! i) = Some perf \<and> perf ''mae'' = Some e \<and> e \<le> e' \<longrightarrow>
         (\<exists>ws'. ensemble_weights
                  (fc\<lparr>model_performance := (model_performance fc)
                        (target \<mapsto> table(?names ! i \<mapsto> perf(''mae'' \<mapsto> e')))\<rparr>)
                  models target = Inr ws' \<and>
                ws' ! i \<le> normalize ?raw ! i)"
  proof (intro allI impI)
    fix i table perf e e'
    assume h: "i < length ?raw \<and> distinct (map fst models) \<and>
         model_performance fc target = Some table \<and>
         table (?names ! i) = Some perf \<and> perf ''mae'' = Some e \<and> e \<le> e'"
    then have nn: "\<forall>n \<in> set ?names. 0 \<le> recorded_mae table n"
      using mae_nonneg by simp
    from h have i: "i < length ?names" by simp
    have "\<exists>ws ws'. ensemble_weights fc models target = Inr ws \<and>
           ensemble_weights
             (fc\<lparr>model_performance := (model_performance fc)
                   (target \<mapsto> table(?names ! i \<mapsto> perf(''mae'' \<mapsto> e')))\<rparr>)
             models target = Inr ws' \<and>
           ws' ! i \<le> ws ! i"
    proof -
      from h have d: "distinct (map fst models)"
        and tab: "model_performance fc target = Some table"
        and pf: "table (?names ! i) = Some perf"
        and ee: "perf ''mae'' = Some e" "e \<le> e'"
        by blast+
      show ?thesis
        by (rule ensemble_weight_antimono[OF scalers_ok nn tab pf ee d i refl])
    qed
    with ws
    show "\<exists>ws'. ensemble_weights
                  (fc\<lparr>model_performance := (model_performance fc)
                        (target \<mapsto> table(?names ! i \<mapsto> perf(''mae'' \<mapsto> e')))\<rparr>)
                  models target = Inr ws' \<and>
                ws' ! i \<le> normalize ?raw ! i"
      by auto
  qed
  have len: "length ?raw = length ?names" "length (normalize ?raw) = length ?raw"
    by (simp_all add: normalize_def)
  show ?thesis
    by (rule exI[of _ ps], rule exI[of _ ?raw], rule exI[of _ "normalize ?raw"])
      (intro conjI ps ws len one each mono)
qed

theorem ensemble_weights_normalized_witness:
  "\<exists>ws. ensemble_weights
          \<lparr>model_performance = [''gasoline'' \<mapsto>
             [''random_forest'' \<mapsto> [''mae'' \<mapsto> 1], ''gradient_boosting'' \<mapsto> [''mae'' \<mapsto> 3]]],
           scalers = {}, tensorflow_available = False\<rparr>
          [(''random_forest'', Scalars [10]), (''gradient_boosting'', Scalars [20])]
          ''gasoline'' = Inr ws \<and>
        length ws = 2 \<and> sum_list ws = 1"
proof -
  let ?fc = "\<lparr>model_performance = [''gasoline'' \<mapsto>
             [''random_forest'' \<mapsto> [''mae'' \<mapsto> 1], ''gradient_boosting'' \<mapsto> [''mae'' \<mapsto> 3]]],
           scalers = {}, tensorflow_available = False\<rparr>"
  let ?models = "[(''random_forest'', Scalars [10]), (''gradient_boosting'', Scalars [20])]"
  have names: "contributing ?fc ?models = [''random_forest'', ''gradient_boosting'']"
    by (simp add: contributing_def)
  have h1: "''lstm'' \<in> set (contributing ?fc ?models) \<longrightarrow>
             ''gasoline'' @ ''_X'' \<in> scalers ?fc \<and> ''gasoline'' @ ''_y'' \<in> scalers ?fc"
    by (simp add: names)
  have h2: "\<forall>table. model_performance ?fc ''gasoline'' = Some table \<longrightarrow>
           (\<forall>n \<in> set (contributing ?fc ?models). 0 \<le> recorded_mae table n)"
    by (auto simp: names recorded_mae_def)
  have h3: "contributing ?fc ?models \<noteq> []" by (simp add: names)
  show ?thesis
    using ensemble_weights_normalized[OF h1 h2 h3]
    apply (elim exE conjE)
    subgoal for ps raw ws
      by (rule exI[of _ ws]) (simp add: names)
    done
qed

text \<open>
  Claim C1 as stated fails for a model with no recorded performance under a target that
  has a performance table: \<open>perf.get('mae', 1)\<close> gives it the weight 1/2 before
  normalisation, not 1.0, and the normalised weights are 2/3 and 1/3, not 1/2 each.
\<close>

theorem default_weight_counterexample:
  "map_sum id snd
     (collect
        \<lparr>model_performance = [''gasoline'' \<mapsto> [''random_forest'' \<mapsto> [''mae'' \<mapsto> 0]]],
         scalers = {}, tensorflow_available = False\<rparr>
        ''gasoline''
        [(''random_forest'', Scalars [10]), (''gradient_boosting'', Scalars [20])])
     = Inr [1, 1 / 2] \<and>
   ensemble_weights
        \<lparr>model_performance = [''gasoline'' \<mapsto> [''random_forest'' \<mapsto> [''mae'' \<mapsto> 0]]],
         scalers = {}, tensorflow_available = False\<rparr>
        [(''random_forest'', Scalars [10]), (''gradient_boosting'', Scalars [20])]
        ''gasoline''
     = Inr [2 / 3, 1 / 3]"
  by (simp add: ensemble_weights_def model_weight_def recorded_mae_def normalize_def)


section \<open>Properties: no surviving model\<close>

lemma collect_none_contributing:
  "contributing fc models = [] \<Longrightarrow> collect fc target models = Inr ([], [])"
  using collect_returns[of fc models target] by auto

text \<open>
  Claim C3 (as amended). When no component model contributes a prediction, the combiner
  returns the empty array (of length 0, so not an array of zeros) as an ordinary result,
  and the caller leaves the fuel type out of its result.
\<close>

theorem no_surviving_model_gives_empty_array:
  "contributing fc models = [] \<Longrightarrow>
   ensemble_predict fc models target = Inr [] \<and>
   forecast_unit last_date forecast_horizon [] = None"
  by (simp add: ensemble_predict_def collect_none_contributing forecast_unit_def)

theorem no_surviving_model_gives_empty_array_witness:
  "ensemble_predict
     \<lparr>model_performance = Map.empty, scalers = {}, tensorflow_available = False\<rparr>
     [(''lstm'', Rows [[1, 2]])] ''gasoline'' = Inr [] \<and>
   forecast_unit 0 28 [] = None"
proof -
  have "contributing
          \<lparr>model_performance = Map.empty, scalers = {}, tensorflow_available = False\<rparr>
          [(''lstm'', Rows [[1, 2]])] = []"
    by (simp add: contributing_def)
  from no_surviving_model_gives_empty_array[OF this] show ?thesis .
qed

text \<open>
  Claim C3 as stated fails: with an LSTM as the only model and TensorFlow not available,
  no model survives and the combiner returns normally, with the empty array; no failure
  is raised, and the caller records none.
\<close>

theorem no_surviving_model_counterexample:
  "\<not> isl (ensemble_predict
            \<lparr>model_performance = Map.empty, scalers = {}, tensorflow_available = False\<rparr>
            [(''lstm'', Rows [[1, 2]])] ''gasoline'') \<and>
   forecast_unit 0 28
     (projr (ensemble_predict
            \<lparr>model_performance = Map.empty, scalers = {}, tensorflow_available = False\<rparr>
            [(''lstm'', Rows [[1, 2]])] ''gasoline'')) = None"
  by (simp add: ensemble_predict_def forecast_unit_def)


section \<open>Properties: preparing the series\<close>

lemma dropna_to_series: "dropna (to_series c) = c"
  by (induction c) (auto simp: to_series_def)

lemma length_dropna_le: "length (dropna s) \<le> length s"
  by (induction s rule: dropna.induct) auto

lemma clip_band: "lower \<le> upper \<Longrightarrow> lower \<le> clip lower upper v \<and> clip lower upper v \<le> upper"
  by (auto simp: clip_def)

lemma clip_inside: "lower \<le> v \<Longrightarrow> v \<le> upper \<Longrightarrow> clip lower upper v = v"
  by (auto simp: clip_def)

lemma interpolate_between:
  fixes a b x y t :: real
  assumes "a \<le> x" "x \<le> b" "a \<le> y" "y \<le> b" "0 \<le> t" "t \<le> 1"
  shows "a \<le> x + t * (y - x) \<and> x + t * (y - x) \<le> b"
proof -
  have e: "x + t * (y - x) = (1 - t) * x + t * y" by (simp add: algebra_simps)
  have "(1 - t) * a + t * a \<le> (1 - t) * x + t * y"
    using assms by (intro add_mono mult_left_mono) auto
  moreover have "(1 - t) * x + t * y \<le> (1 - t) * b + t * b"
    using assms by (intro add_mono mult_left_mono) auto
  ultimately show ?thesis unfolding e by (simp add: algebra_simps)
qed

lemma quantile_pos:
  assumes "xs \<noteq> []" "0 \<le> q" "q \<le> 1"
  defines "h \<equiv> (real (length xs) - 1) * q"
  shows "0 \<le> h" "nat \<lfloor>h\<rfloor> \<le> length xs - 1" "real (nat \<lfloor>h\<rfloor>) \<le> h" "h - real (nat \<lfloor>h\<rfloor>) < 1"
proof -
  have n: "1 \<le> real (length xs)" using assms(1) by (cases xs) auto
  show h0: "0 \<le> h" using n assms by (simp add: h_def)
  have "h \<le> real (length xs) - 1"
    using n assms(2,3) unfolding h_def by (simp add: mult_left_le)
  then have "of_int \<lfloor>h\<rfloor> \<le> real (length xs) - 1"
    using of_int_floor_le[of h] by linarith
  then have "\<lfloor>h\<rfloor> \<le> int (length xs) - 1" by linarith
  then show "nat \<lfloor>h\<rfloor> \<le> length xs - 1" by linarith
  show "real (nat \<lfloor>h\<rfloor>) \<le> h" using h0 by (simp add: of_nat_nat) 
  show "h - real (nat \<lfloor>h\<rfloor>) < 1" using h0 by (simp add: of_nat_nat) linarith
qed

lemma min_index: "0 < (n::nat) \<Longrightarrow> min (k + 1) (n - 1) < n"
  by linarith

lemma quantile_between:
  assumes ne: "xs \<noteq> []" and q: "0 \<le> q" "q \<le> 1"
    and ab: "\<forall>x \<in> set xs. a \<le> x \<and> x \<le> b"
  shows "a \<le> quantile xs q \<and> quantile xs q \<le> b"
proof -
  let ?h = "(real (length xs) - 1) * q"
  let ?lo = "nat \<lfloor>?h\<rfloor>"
  let ?hi = "min (?lo + 1) (length xs - 1)"
  note p = quantile_pos[OF ne q]
  have len: "0 < length xs" using ne by simp
  have lo: "?lo < length (sort xs)" using p(2) len by (simp only: length_sort)
  have hi: "?hi < length (sort xs)" using min_index[OF len] by (simp only: length_sort)
  have "sort xs ! ?lo \<in> set xs" using nth_mem[OF lo] by simp
  moreover have "sort xs ! ?hi \<in> set xs" using nth_mem[OF hi] by simp
  ultimately have "a \<le> sort xs ! ?lo + (?h - real ?lo) * (sort xs ! ?hi - sort xs ! ?lo) \<and>
      sort xs ! ?lo + (?h - real ?lo) * (sort xs ! ?hi - sort xs ! ?lo) \<le> b"
    using ab p(3,4) by (intro interpolate_between) auto
  then show ?thesis by (simp add: quantile_def Let_def)
qed

lemma quantile_mono:
  assumes ne: "xs \<noteq> []" and q: "0 \<le> q1" "q1 \<le> q2" "q2 \<le> 1"
  shows "quantile xs q1 \<le> quantile xs q2"
proof -
  let ?s = "sort xs"
  let ?n = "length xs"
  let ?h1 = "(real ?n - 1) * q1" and ?h2 = "(real ?n - 1) * q2"
  let ?l1 = "nat \<lfloor>?h1\<rfloor>" and ?l2 = "nat \<lfloor>?h2\<rfloor>"
  let ?u1 = "min (?l1 + 1) (?n - 1)" and ?u2 = "min (?l2 + 1) (?n - 1)"
  have q1: "q1 \<le> 1" and q2: "0 \<le> q2" using q by auto
  note p1 = quantile_pos[OF ne q(1) q1]
  note p2 = quantile_pos[OF ne q2 q(3)]
  have n: "1 \<le> real ?n" using ne by (cases xs) auto
  have len: "0 < ?n" using ne by simp
  have h: "?h1 \<le> ?h2" using n q by (intro mult_left_mono) auto
  then have l: "?l1 \<le> ?l2" by (intro nat_mono floor_mono)
  have srt: "sorted ?s" by simp
  have nth_mono: "i \<le> j \<Longrightarrow> j < ?n \<Longrightarrow> ?s ! i \<le> ?s ! j" for i j
    using sorted_nth_mono[OF srt, of i j] by simp
  have u1: "?u1 < ?n" and u2: "?u2 < ?n" by (rule min_index[OF len])+
  have d1: "0 \<le> ?s ! ?u1 - ?s ! ?l1" using nth_mono[of ?l1 ?u1] u1 p1(2) by simp
  have d2: "0 \<le> ?s ! ?u2 - ?s ! ?l2" using nth_mono[of ?l2 ?u2] u2 p2(2) by simp
  have Q1: "quantile xs q1 = ?s ! ?l1 + (?h1 - real ?l1) * (?s ! ?u1 - ?s ! ?l1)"
    by (simp add: quantile_def Let_def)
  have Q2: "quantile xs q2 = ?s ! ?l2 + (?h2 - real ?l2) * (?s ! ?u2 - ?s ! ?l2)"
    by (simp add: quantile_def Let_def)
  show ?thesis
  proof (cases "?l1 = ?l2")
    case True
    have "(?h1 - real ?l1) * (?s ! ?u1 - ?s ! ?l1) \<le> (?h2 - real ?l1) * (?s ! ?u1 - ?s ! ?l1)"
      using h d1 by (intro mult_right_mono) auto
    then show ?thesis unfolding Q1 Q2 using True by simp
  next
    case False
    then have lt: "?l1 + 1 \<le> ?l2" using l by linarith
    have l2: "?l2 < ?n" using p2(2) len by linarith
    have "(?h1 - real ?l1) * (?s ! ?u1 - ?s ! ?l1) \<le> 1 * (?s ! ?u1 - ?s ! ?l1)"
      using p1(4) d1 by (intro mult_right_mono) auto
    then have "quantile xs q1 \<le> ?s ! ?u1" unfolding Q1 by simp
    also have "?s ! ?u1 \<le> ?s ! ?l2"
      using lt l2 by (intro nth_mono) auto
    also have "?s ! ?l2 \<le> quantile xs q2"
      unfolding Q2 using p2(3) d2 by (simp add: mult_nonneg_nonneg)
    finally show ?thesis .
  qed
qed

lemma prepare_series_long:
  "100 \<le> length (dropna s) \<Longrightarrow>
   prepare_series s =
     Inr (map (\<lambda>(t, v). (t, clip (quantile (map snd (dropna s)) (1 / 100))
                                   (quantile (map snd (dropna s)) (99 / 100)) v))
              (dropna s))"
  by (simp add: prepare_series_def Let_def)

lemma prepare_series_short:
  "length (dropna s) < 100 \<Longrightarrow>
   prepare_series s = Inl (ValueError_too_short (length (dropna s)))"
  by (simp add: prepare_series_def Let_def)

text \<open>
  Claim C2. Series preparation raises its too-short error whenever fewer than 100 clean
  observations remain after the missing values are dropped, and so for every 10-point
  series; with 100 or more it returns a series. (The bound 100 is a literal of
  \<open>_prepare_series\<close>, and the exception is Python's \<open>ValueError\<close>.)
\<close>

theorem short_series_rejected:
  "(length (dropna series) < 100 \<longrightarrow>
      prepare_series series = Inl (ValueError_too_short (length (dropna series)))) \<and>
   (length series = 10 \<longrightarrow>
      prepare_series series = Inl (ValueError_too_short (length (dropna series)))) \<and>
   (100 \<le> length (dropna series) \<longrightarrow> (\<exists>prepared. prepare_series series = Inr prepared))"
proof (intro conjI impI)
  assume "length series = 10"
  then have "length (dropna series) < 100" using length_dropna_le[of series] by simp
  then show "prepare_series series = Inl (ValueError_too_short (length (dropna series)))"
    by (rule prepare_series_short)
qed (simp_all add: prepare_series_short prepare_series_long)

theorem short_series_rejected_witness:
  "prepare_series
     [(0, Some 100), (1, Some 101), (2, None), (3, Some 103), (4, Some 104),
      (5, Some 105), (6, Some 106), (7, Some 107), (8, Some 108), (9, Some 109)]
   = Inl (ValueError_too_short 9)"
  using short_series_rejected
    [of "[(0, Some 100), (1, Some 101), (2, None), (3, Some 103), (4, Some 104),
      (5, Some 105), (6, Some 106), (7, Some 107), (8, Some 108), (9, Some 109)]"]
  by simp

lemma map_snd_clip:
  "map snd (map (\<lambda>(t, v). (t, f v)) rows) = map f (map snd rows)"
  by (induction rows) auto

lemma map_fst_clip:
  "map fst (map (\<lambda>(t, v). (t, f v)) rows) = map fst rows"
  by (induction rows) auto

text \<open>
  Claim C8 (as amended). Running the preparation on its own output does not fail, keeps
  the timestamps, and clips the prepared values to the percentile band recomputed from
  them: every value stays inside the band of the first run, and a value inside the
  recomputed band is unchanged.
\<close>

theorem prepare_series_twice:
  assumes first: "prepare_series series = Inr prepared"
  shows "\<exists>again.
      prepare_series (to_series prepared) = Inr again \<and>
      map fst again = map fst prepared \<and>
      again = map (\<lambda>(t, v). (t, clip (quantile (map snd prepared) (1 / 100))
                                       (quantile (map snd prepared) (99 / 100)) v)) prepared \<and>
      (\<forall>i < length prepared.
         quantile (map snd (dropna series)) (1 / 100) \<le> snd (again ! i) \<and>
         snd (again ! i) \<le> quantile (map snd (dropna series)) (99 / 100) \<and>
         (quantile (map snd prepared) (1 / 100) \<le> snd (prepared ! i) \<and>
          snd (prepared ! i) \<le> quantile (map snd prepared) (99 / 100) \<longrightarrow>
          again ! i = prepared ! i))"
proof -
  let ?vals = "map snd (dropna series)"
  let ?q01 = "quantile ?vals (1 / 100)" and ?q99 = "quantile ?vals (99 / 100)"
  let ?v1 = "map snd prepared"
  let ?p01 = "quantile ?v1 (1 / 100)" and ?p99 = "quantile ?v1 (99 / 100)"
  let ?again = "map (\<lambda>(t, v). (t, clip ?p01 ?p99 v)) prepared"
  have long: "100 \<le> length (dropna series)"
    using first by (cases "length (dropna series) < 100") (simp_all add: prepare_series_short)
  then have vals_ne: "?vals \<noteq> []" by auto
  have prep: "prepared = map (\<lambda>(t, v). (t, clip ?q01 ?q99 v)) (dropna series)"
    using first prepare_series_long[OF long] by simp
  have len1: "length prepared = length (dropna series)" by (subst prep) simp
  have v1: "?v1 = map (clip ?q01 ?q99) ?vals" by (subst prep) (rule map_snd_clip)
  have band: "?q01 \<le> ?q99" by (rule quantile_mono[OF vals_ne]) simp_all
  have in_band: "\<forall>x \<in> set ?v1. ?q01 \<le> x \<and> x \<le> ?q99"
    unfolding v1 using clip_band[OF band] by auto
  have v1_ne: "?v1 \<noteq> []" using len1 long by auto
  have p01: "?q01 \<le> ?p01 \<and> ?p01 \<le> ?q99"
    by (rule quantile_between[OF v1_ne _ _ in_band]) simp_all
  have p99: "?q01 \<le> ?p99 \<and> ?p99 \<le> ?q99"
    by (rule quantile_between[OF v1_ne _ _ in_band]) simp_all
  have band': "?p01 \<le> ?p99" by (rule quantile_mono[OF v1_ne]) simp_all
  have run: "prepare_series (to_series prepared) = Inr ?again"
    using prepare_series_long[of "to_series prepared"] long len1
    by (simp add: dropna_to_series)
  have each: "\<forall>i < length prepared.
         ?q01 \<le> snd (?again ! i) \<and> snd (?again ! i) \<le> ?q99 \<and>
         (?p01 \<le> snd (prepared ! i) \<and> snd (prepared ! i) \<le> ?p99 \<longrightarrow>
          ?again ! i = prepared ! i)"
  proof (intro allI impI)
    fix i assume i: "i < length prepared"
    obtain t v where tv: "prepared ! i = (t, v)" by (cases "prepared ! i")
    have a: "?again ! i = (t, clip ?p01 ?p99 v)" using i tv by simp
    have "?p01 \<le> clip ?p01 ?p99 v \<and> clip ?p01 ?p99 v \<le> ?p99" by (rule clip_band[OF band'])
    then have "?q01 \<le> clip ?p01 ?p99 v \<and> clip ?p01 ?p99 v \<le> ?q99"
      using p01 p99 by linarith
    then show "?q01 \<le> snd (?again ! i) \<and> snd (?again ! i) \<le> ?q99 \<and>
         (?p01 \<le> snd (prepared ! i) \<and> snd (prepared ! i) \<le> ?p99 \<longrightarrow>
          ?again ! i = prepared ! i)"
      unfolding a tv by (simp add: clip_inside)
  qed
  have fst: "map fst ?again = map fst prepared" by (rule map_fst_clip)
  show ?thesis
    by (rule exI[of _ ?again]) (intro conjI run fst refl each)
qed

lemma prepare_series_zip:
  assumes "length ts = length vs" "100 \<le> length vs"
  shows "prepare_series (to_series (zip ts vs)) =
           Inr (zip ts (map (clip (quantile vs (1 / 100)) (quantile vs (99 / 100))) vs))"
proof -
  have m: "map snd (zip ts vs) = vs" using assms(1) by (rule map_snd_zip)
  have z: "map (\<lambda>(t, v). (t, f v)) (zip ts vs) = zip ts (map f vs)" for f :: "real \<Rightarrow> real"
    by (simp add: zip_map2 case_prod_unfold)
  show ?thesis
    using prepare_series_long[of "to_series (zip ts vs)"] assms
    by (simp add: dropna_to_series m z)
qed

lemma quantile_low_head:
  assumes "a \<le> b"
  shows "quantile (a # replicate 99 b) (1 / 100) = a + 99 / 100 * (b - a)"
    and "quantile (a # replicate 99 b) (99 / 100) = b"
proof -
  have s: "sort (a # replicate 99 b) = a # replicate 99 b"
    using assms by (intro sorted_sort_id) simp
  show "quantile (a # replicate 99 b) (1 / 100) = a + 99 / 100 * (b - a)"
    unfolding quantile_def s by (simp add: Let_def)
  show "quantile (a # replicate 99 b) (99 / 100) = b"
    unfolding quantile_def s by (simp add: Let_def)
qed

theorem prepare_series_twice_witness:
  "\<exists>again. prepare_series (to_series (zip [0..99] (99 # replicate 99 100))) = Inr again \<and>
     map fst again = map fst (zip [0..99] (99 # replicate 99 (100::real)))"
proof -
  have l: "length [0..99::int] = length (x # replicate 99 y)" for x y :: real by simp
  have first: "prepare_series (to_series (zip [0..99] (0 # replicate 99 100)))
     = Inr (zip [0..99] (99 # replicate 99 100))"
    by (simp add: prepare_series_zip[OF l] quantile_low_head clip_def)
  from prepare_series_twice[OF first] show ?thesis by blast
qed

text \<open>
  Claim C8 as stated fails: the percentile bounds are computed again from the clipped
  values. For the 100-point series 0, 100, ..., 100 the first run lifts the 0 to the 1st
  percentile 99; on that output the 1st percentile is 99.99, and the second run lifts the
  value again.
\<close>

theorem prepare_series_not_idempotent:
  "prepare_series (to_series (zip [0..99] (0 # replicate 99 100)))
     = Inr (zip [0..99] (99 # replicate 99 100)) \<and>
   prepare_series (to_series (zip [0..99] (99 # replicate 99 100)))
     = Inr (zip [0..99] (9999 / 100 # replicate 99 100)) \<and>
   zip [0..99] (9999 / 100 # replicate 99 100) \<noteq> zip [0..99] (99 # replicate 99 (100::real))"
proof -
  have l: "length [0..99::int] = length (x # replicate 99 y)" for x y :: real by simp
  have u: "[0..99::int] = 0 # [1..99]" by (simp add: upto_rec1)
  show ?thesis
    by (simp add: prepare_series_zip[OF l] quantile_low_head clip_def)
       (simp add: u)
qed



section \<open>Properties: seven-day forecast for Seoul\<close>










lemma last_drop_14: "14 \<le> length ps \<Longrightarrow> last (drop (length ps - 14) ps) = last ps"
  by (simp add: last_drop)






section \<open>Properties: ARIMA forecast\<close>



lemma place_bounds_array:
  "length ci = length fdates \<Longrightarrow>
   place_bounds fdates (BoundsArray ci) = Inr (map2 (\<lambda>d (l, u). (d, Some l, Some u)) fdates ci)"
  by (simp add: place_bounds_def)






section \<open>Properties: level shifts by cumulative sums\<close>

lemma cusum_step_break:
  assumes "found (cusum_step mean_val sd msl i row st) \<noteq> found st"
  shows "cusum_pos (cusum_step mean_val sd msl i row st) = 0 \<and>
         cusum_neg (cusum_step mean_val sd msl i row st) = 0 \<and>
         (max 0 (cusum_pos st + snd row - mean_val - 5 / 10 * sd) > 4 * sd \<or>
          max 0 (cusum_neg st - snd row + mean_val - 5 / 10 * sd) > 4 * sd) \<and>
         msl \<le> int i"
  using assms by (auto simp: cusum_step_def Let_def split: if_splits)

lemma mean_two_spikes: "mean (map snd two_spikes) = 1502"
  by (simp add: two_spikes_def upt_conv_Cons mean_def)

lemma np_std_two_spikes: "np_std (map snd two_spikes) = 14"
proof -
  have "sq_dev (map snd two_spikes) = 19600"
    unfolding sq_dev_def mean_two_spikes by (simp add: two_spikes_def upt_conv_Cons)
  then have "np_std (map snd two_spikes) = sqrt (14\<^sup>2)"
    by (simp add: np_std_def two_spikes_def)
  then show ?thesis by simp
qed

lemma sort_two_spikes:
  "sort (map snd two_spikes) = map (\<lambda>k. if k < 98 then 1500 else 1600) [0..<100]"
  by (simp add: two_spikes_def upt_conv_Cons)

lemma quantile_two_spikes:
  "quantile (map snd two_spikes) (1 / 100) = 1500"
  "quantile (map snd two_spikes) (99 / 100) = 1600"
  unfolding quantile_def sort_two_spikes by (simp_all add: two_spikes_def Let_def)

lemma prepare_two_spikes: "prepare_series (to_series two_spikes) = Inr two_spikes"
proof -
  have "length (dropna (to_series two_spikes)) = 100"
    by (simp add: dropna_to_series two_spikes_def)
  then show ?thesis
    by (simp add: prepare_series_def Let_def dropna_to_series quantile_two_spikes)
      (simp add: two_spikes_def clip_def)
qed

text \<open>
  Claim C6, at an input where the code departs from it. The threshold is four standard
  deviations and a reported break resets both accumulators (\<open>cusum_step_break\<close>), but
  the gap to the previous break is measured from its significance, not from its index:
  on the series \<open>two_spikes\<close>, which the preparation leaves as it is, with the minimum
  segment length 30 the detector reports level shifts on day 30 and again on day 32.
\<close>

theorem cusum_reports_breaks_two_days_apart:
  "prepare_series (to_series two_spikes) = Inr two_spikes \<and>
   cusum_detection two_spikes 30 = [(30, 13 / 8), (32, 13 / 8)]"
proof -
  have "cusum_detection two_spikes 30 = [(30, 13 / 8), (32, 13 / 8)]"
    unfolding cusum_detection_def Let_def mean_two_spikes np_std_two_spikes
    by (simp add: two_spikes_def upt_conv_Cons cusum_step_def Let_def)
  then show ?thesis using prepare_two_spikes by simp
qed


section \<open>Properties: statistical outlier detection\<close>

lemma exceeds_mono: "exceeds f z2 \<Longrightarrow> z1 \<le> z2 \<Longrightarrow> exceeds f z1"
  by (cases f) auto

lemma length_filter_imp:
  "(\<And>x. x \<in> set xs \<Longrightarrow> P x \<Longrightarrow> Q x) \<Longrightarrow> length (filter P xs) \<le> length (filter Q xs)"
  by (induction xs) auto

lemma total_make_result:
  "length scores = length idxs \<Longrightarrow>
   total_outliers (make_result series idxs scores types method thr) =
     (if series = [] then 0 else length idxs)"
  by (simp add: make_result_def empty_result_def)

lemma total_statistical:
  "total_outliers (statistical_detection series z) =
     (if series = [] then 0
      else length (filter (\<lambda>i. outlier_mask (map snd series) z (map snd series ! i))
                     [0..<length series]))"
  by (simp add: statistical_detection_def Let_def total_make_result)

lemma total_forest:
  "total_outliers (isolation_forest_detection series contamination fitted) =
     (case fitted of
        None \<Rightarrow> 0
      | Some rows \<Rightarrow>
          if series = [] then 0
          else length (filter (\<lambda>i. i < length rows \<and> fst (rows ! i)) [0..<length series]))"
  by (cases fitted)
     (simp_all add: isolation_forest_detection_def Let_def total_make_result empty_result_def)

lemma total_forest_fit:
  "total_outliers (isolation_forest_detection series contamination
                     (forest_fit sample_scores contamination)) =
     (case sample_scores of
        None \<Rightarrow> 0
      | Some scores \<Rightarrow>
          if series = [] \<or> \<not> (0 < contamination \<and> contamination \<le> 1 / 2) then 0
          else length (filter (\<lambda>i. i < length scores \<and>
                                 scores ! i < quantile scores contamination)
                         [0..<length series]))"
proof -
  have "filter (\<lambda>i. i < length (map (\<lambda>sc. (sc < quantile scores c, sc)) scores) \<and>
                     fst (map (\<lambda>sc. (sc < quantile scores c, sc)) scores ! i)) xs
          = filter (\<lambda>i. i < length scores \<and> scores ! i < quantile scores c) xs"
    for c xs and scores :: "real list"
    by (rule filter_cong) auto
  then show ?thesis
    by (cases sample_scores) (simp_all add: total_forest forest_fit_def)
qed

lemma forest_rejects:
  "\<not> (0 < contamination \<and> contamination \<le> 1 / 2) \<Longrightarrow>
   total_outliers (isolation_forest_detection series contamination
                     (forest_fit sample_scores contamination)) = 0"
  by (cases sample_scores) (auto simp: total_forest_fit)

lemma forest_monotone:
  assumes "0 < c1" "c1 \<le> c2" "c2 \<le> 1 / 2"
  shows "total_outliers (isolation_forest_detection series c1 (forest_fit sample_scores c1))
         \<le> total_outliers (isolation_forest_detection series c2 (forest_fit sample_scores c2))"
proof (cases sample_scores)
  case None
  then show ?thesis by (simp add: total_forest_fit)
next
  case (Some scores)
  have q: "quantile scores c1 \<le> quantile scores c2" if "scores \<noteq> []"
    using assms by (intro quantile_mono[OF that]) auto
  have "length (filter (\<lambda>i. i < length scores \<and> scores ! i < quantile scores c1)
                  [0..<length series])
        \<le> length (filter (\<lambda>i. i < length scores \<and> scores ! i < quantile scores c2)
                  [0..<length series])"
  proof (rule length_filter_imp)
    fix i assume "i < length scores \<and> scores ! i < quantile scores c1"
    then show "i < length scores \<and> scores ! i < quantile scores c2"
      using q by (cases "scores = []") auto
  qed
  then show ?thesis
    using Some assms by (simp add: total_forest_fit)
qed

lemma statistical_antitone:
  "z1 \<le> z2 \<Longrightarrow>
   total_outliers (statistical_detection sr z2) \<le> total_outliers (statistical_detection sr z1)"
  unfolding total_statistical
  by (auto intro!: length_filter_imp simp: outlier_mask_def dest: exceeds_mono)

text \<open>
  Claim C7 (as amended). For the statistical method, raising the z-score threshold never
  raises the number of outliers reported. For the isolation forest, whose labels follow
  scikit-learn's percentile rule on sample scores that do not depend on the contamination,
  raising the contamination never lowers the number of outliers reported as long as it
  stays in the interval (0, 0.5] that the library accepts; for a contamination outside
  that interval the library raises, the handler returns the empty result and the number
  reported is 0. Both hold for the detectors and for \<open>detect_outliers\<close> with the method
  fixed. The number reported is the number of observations that fail one of the three
  statistical tests, and the number of observations with a score below the percentile.
\<close>

theorem outlier_count_by_parameter:
  "(z1 \<le> z2 \<longrightarrow>
      total_outliers (statistical_detection series z2)
        \<le> total_outliers (statistical_detection series z1) \<and>
      total_outliers
          (projr (detect_outliers raw ''statistical'' contamination (Some z2) mv fitted))
        \<le> total_outliers
            (projr (detect_outliers raw ''statistical'' contamination (Some z1) mv fitted))) \<and>
   (0 < c1 \<and> c1 \<le> c2 \<and> c2 \<le> 1 / 2 \<longrightarrow>
      total_outliers (isolation_forest_detection series c1 (forest_fit sample_scores c1))
        \<le> total_outliers (isolation_forest_detection series c2 (forest_fit sample_scores c2)) \<and>
      total_outliers
          (projr (detect_outliers raw ''isolation_forest'' c1 zt mv (forest_fit sample_scores c1)))
        \<le> total_outliers
            (projr (detect_outliers raw ''isolation_forest'' c2 zt mv
                      (forest_fit sample_scores c2)))) \<and>
   (\<not> (0 < c \<and> c \<le> 1 / 2) \<longrightarrow>
      total_outliers (isolation_forest_detection series c (forest_fit sample_scores c)) = 0 \<and>
      total_outliers
          (projr (detect_outliers raw ''isolation_forest'' c zt mv (forest_fit sample_scores c)))
        = 0) \<and>
   total_outliers (statistical_detection series z) =
     (if series \<noteq> []
      then length (filter (\<lambda>i. outlier_mask (map snd series) z (map snd series ! i))
                     [0..<length series])
      else 0) \<and>
   total_outliers (isolation_forest_detection series c (forest_fit (Some scores) c)) =
     (if series \<noteq> [] \<and> 0 < c \<and> c \<le> 1 / 2
      then length (filter (\<lambda>i. i < length scores \<and> scores ! i < quantile scores c)
                     [0..<length series])
      else 0)"
proof (intro conjI impI)
  show "total_outliers (statistical_detection series z) =
     (if series \<noteq> []
      then length (filter (\<lambda>i. outlier_mask (map snd series) z (map snd series ! i))
                     [0..<length series])
      else 0)"
    by (simp add: total_statistical)
  show "total_outliers (isolation_forest_detection series c (forest_fit (Some scores) c)) =
     (if series \<noteq> [] \<and> 0 < c \<and> c \<le> 1 / 2
      then length (filter (\<lambda>i. i < length scores \<and> scores ! i < quantile scores c)
                     [0..<length series])
      else 0)"
    by (simp add: total_forest_fit)
next
  assume z: "z1 \<le> z2"
  show "total_outliers (statistical_detection series z2)
          \<le> total_outliers (statistical_detection series z1)"
    by (rule statistical_antitone[OF z])
  show "total_outliers
          (projr (detect_outliers raw ''statistical'' contamination (Some z2) mv fitted))
        \<le> total_outliers
            (projr (detect_outliers raw ''statistical'' contamination (Some z1) mv fitted))"
    using statistical_antitone[OF z, of "dropna raw"]
    by (simp add: detect_outliers_def Let_def)
next
  assume c: "0 < c1 \<and> c1 \<le> c2 \<and> c2 \<le> 1 / 2"
  then have m: "total_outliers (isolation_forest_detection sr c1 (forest_fit sample_scores c1))
         \<le> total_outliers (isolation_forest_detection sr c2 (forest_fit sample_scores c2))"
    for sr
    by (intro forest_monotone) auto
  show "total_outliers (isolation_forest_detection series c1 (forest_fit sample_scores c1))
        \<le> total_outliers (isolation_forest_detection series c2 (forest_fit sample_scores c2))"
    by (rule m)
  show "total_outliers
          (projr (detect_outliers raw ''isolation_forest'' c1 zt mv (forest_fit sample_scores c1)))
        \<le> total_outliers
            (projr (detect_outliers raw ''isolation_forest'' c2 zt mv
                      (forest_fit sample_scores c2)))"
    using m[of "dropna raw"] by (simp add: detect_outliers_def Let_def empty_result_def)
next
  assume c: "\<not> (0 < c \<and> c \<le> 1 / 2)"
  show "total_outliers (isolation_forest_detection series c (forest_fit sample_scores c)) = 0"
    by (rule forest_rejects[OF c])
  show "total_outliers
          (projr (detect_outliers raw ''isolation_forest'' c zt mv (forest_fit sample_scores c)))
        = 0"
    using forest_rejects[OF c, of "dropna raw"]
    by (simp add: detect_outliers_def Let_def empty_result_def)
qed

lemma values_one_high:
  "map snd one_high = map (\<lambda>k. if k = 20 then 1511 else if even k then 1497 else 1503) [0..<41]"
  by (simp add: one_high_def comp_def)

lemma mean_one_high: "mean (map snd one_high) = 1500 + 11 / 41"
  unfolding values_one_high by (simp add: upt_conv_Cons mean_def)

lemma np_std_one_high: "np_std (map snd one_high) = 140 / 41"
proof -
  have "sq_dev (map snd one_high) = 19600 / 41"
    unfolding sq_dev_def mean_one_high unfolding values_one_high
    by (simp add: upt_conv_Cons power2_eq_square)
  then have "np_std (map snd one_high) = sqrt ((140 / 41)\<^sup>2)"
    by (simp add: np_std_def one_high_def power2_eq_square)
  then show ?thesis by simp
qed

lemma sort_one_high:
  "sort (map snd one_high) =
     map (\<lambda>k. if k < 20 then 1497 else if k < 40 then 1503 else 1511) [0..<41]"
  unfolding values_one_high by (simp add: upt_conv_Cons)

lemma median_one_high: "median (map snd one_high) = 1503"
  unfolding median_def sort_one_high by (simp add: one_high_def Let_def)

lemma mad_one_high: "median (map (\<lambda>v. \<bar>v - 1503\<bar>) (map snd one_high)) = 6"
proof -
  have "sort (map (\<lambda>v. \<bar>v - 1503\<bar>) (map snd one_high)) =
          map (\<lambda>k. if k < 20 then 0 else if k < 40 then 6 else 8) [0..<41]"
    unfolding values_one_high by (simp add: upt_conv_Cons)
  then show ?thesis unfolding median_def by (simp add: one_high_def Let_def)
qed

lemma quartiles_one_high:
  "quantile (map snd one_high) (25 / 100) = 1497"
  "quantile (map snd one_high) (75 / 100) = 1503"
  unfolding quantile_def sort_one_high by (simp_all add: one_high_def Let_def)

lemma mask_one_high:
  "outlier_mask (map snd one_high) z x =
     (\<bar>(x - (1500 + 11 / 41)) / (140 / 41)\<bar> > z \<or>
      \<bar>6745 / 10000 * (x - 1503) / 6\<bar> > 35 / 10 \<or> x < 1488 \<or> x > 1512)"
  unfolding outlier_mask_def z_score_def modified_z_exceeds_def outside_iqr_def Let_def
    mean_one_high np_std_one_high median_one_high mad_one_high quartiles_one_high
  by simp

lemma sort_one_high_scores:
  "sort one_high_scores =
     map (\<lambda>k. if k < 1 then - (7 / 10) else if k < 11 then - (5 / 10) else - (4 / 10)) [0..<41]"
  unfolding one_high_scores_def by (simp add: upt_conv_Cons)

lemma length_one_high_scores: "length one_high_scores = 41"
  by (simp add: one_high_scores_def)

lemma offsets_one_high_scores:
  "quantile one_high_scores (1 / 10) = - (5 / 10)"
  "quantile one_high_scores (1 / 2) = - (4 / 10)"
  unfolding quantile_def sort_one_high_scores length_one_high_scores
  by (simp_all add: Let_def)

lemma forest_one_high:
  "total_outliers (isolation_forest_detection one_high (1 / 10)
                     (forest_fit (Some one_high_scores) (1 / 10))) = 1"
  "total_outliers (isolation_forest_detection one_high (1 / 2)
                     (forest_fit (Some one_high_scores) (1 / 2))) = 11"
  "total_outliers (isolation_forest_detection one_high (6 / 10)
                     (forest_fit (Some one_high_scores) (6 / 10))) = 0"
proof -
  have ne: "one_high \<noteq> []" by (simp add: one_high_def)
  have len: "length one_high = 41" by (simp add: one_high_def)
  show "total_outliers (isolation_forest_detection one_high (1 / 10)
                     (forest_fit (Some one_high_scores) (1 / 10))) = 1"
    unfolding total_forest_fit option.case offsets_one_high_scores len length_one_high_scores
    using ne by (simp add: one_high_scores_def upt_conv_Cons)
  show "total_outliers (isolation_forest_detection one_high (1 / 2)
                     (forest_fit (Some one_high_scores) (1 / 2))) = 11"
    unfolding total_forest_fit option.case offsets_one_high_scores len length_one_high_scores
    using ne by (simp add: one_high_scores_def upt_conv_Cons)
  show "total_outliers (isolation_forest_detection one_high (6 / 10)
                     (forest_fit (Some one_high_scores) (6 / 10))) = 0"
    unfolding total_forest_fit by simp
qed

theorem outlier_count_by_parameter_witness:
  "total_outliers (statistical_detection one_high 4)
     \<le> total_outliers (statistical_detection one_high 3) \<and>
   total_outliers (isolation_forest_detection one_high (1 / 10)
                     (forest_fit (Some one_high_scores) (1 / 10)))
     \<le> total_outliers (isolation_forest_detection one_high (1 / 2)
                         (forest_fit (Some one_high_scores) (1 / 2))) \<and>
   total_outliers (isolation_forest_detection one_high (6 / 10)
                     (forest_fit (Some one_high_scores) (6 / 10))) = 0"
proof -
  have z: "(3::real) \<le> 4" by simp
  have inside: "0 < (1 / 10 :: real) \<and> (1 / 10 :: real) \<le> 1 / 2 \<and> (1 / 2 :: real) \<le> 1 / 2"
    by simp
  have outside: "\<not> (0 < (6 / 10 :: real) \<and> (6 / 10 :: real) \<le> 1 / 2)" by simp
  note t = outlier_count_by_parameter[where ?z1.0 = 3 and ?z2.0 = 4 and series = one_high
      and ?c1.0 = "1 / 10" and ?c2.0 = "1 / 2" and c = "6 / 10"
      and sample_scores = "Some one_high_scores"]
  show ?thesis
    by (intro conjI
        t[THEN conjunct1, THEN mp, OF z, THEN conjunct1]
        t[THEN conjunct2, THEN conjunct1, THEN mp, OF inside, THEN conjunct1]
        t[THEN conjunct2, THEN conjunct2, THEN conjunct1, THEN mp, OF outside, THEN conjunct1])
qed

text \<open>
  Claim C7 as stated fails for both parameters. On the series \<open>one_high\<close> the day at
  1511 has the z-score 22/7 and passes the other two tests of the statistical method, so
  it is reported with the threshold 3 and not with the threshold 4. With the sample scores
  \<open>one_high_scores\<close> the forest reports 11 days at the contamination 0.5, and none at
  the contamination 0.6, which the library refuses.
\<close>

theorem parameter_counterexample:
  "total_outliers (statistical_detection one_high 3) = 1 \<and>
   total_outliers (statistical_detection one_high 4) = 0 \<and>
   total_outliers (isolation_forest_detection one_high (1 / 2)
                     (forest_fit (Some one_high_scores) (1 / 2))) = 11 \<and>
   total_outliers (isolation_forest_detection one_high (6 / 10)
                     (forest_fit (Some one_high_scores) (6 / 10))) = 0"
proof -
  have ne: "one_high \<noteq> []" by (simp add: one_high_def)
  have len: "length one_high = 41" by (simp add: one_high_def)
  have "total_outliers (statistical_detection one_high 3) = 1 \<and>
        total_outliers (statistical_detection one_high 4) = 0"
    unfolding total_statistical mask_one_high len
    using ne by (simp add: values_one_high upt_conv_Cons)
  then show ?thesis using forest_one_high(2,3) by simp
qed



section \<open>Properties: ensemble outlier detection\<close>























































end
